theory Spec2Isabelle
  imports Complex_Main "HOL-Library.Sublist"
begin

section \<open>ASN label generator: range parser and label values\<close>

text \<open>
  A shallow embedding of \<^verbatim>\<open>gen-asn.py\<close>: the sheet constants, \<^verbatim>\<open>parse_cfg\<close>,
  \<^verbatim>\<open>values\<close>, and the two computations of \<^verbatim>\<open>main\<close> that do not draw: the loop that
  expands the range specifications into the list of labels, and the name of the PDF.

  Python's integers are unbounded and are modelled by \<open>int\<close>. A Python string is a
  \<open>string\<close>, whose characters are read as the code points 0 to 255. An exception
  is the left summand of a sum type; what \<^verbatim>\<open>print\<close> writes is returned as a list of
  lines. The interpreter's optional cap on decimal conversions of more than 4300
  digits is a setting of the runtime, not of the program, and is not modelled.
\<close>

subsection \<open>Errors\<close>

text \<open>
  The only exception the modelled code can raise is Python's \<^verbatim>\<open>ValueError\<close>: from
  \<^verbatim>\<open>int\<close> on text that is no integer, and from \<^verbatim>\<open>math.log\<close> outside its domain.
\<close>

datatype error = ValueError

subsection \<open>The built-in operations the program calls\<close>

text \<open>\<^verbatim>\<open>s.split(d)\<close> for a one-character separator: never empty, one more part than separators.\<close>

fun py_split :: "char \<Rightarrow> string \<Rightarrow> string list" where
  "py_split d [] = [[]]"
| "py_split d (c # cs) =
     (if c = d then [] # py_split d cs
      else (case py_split d cs of [] \<Rightarrow> [[c]] | p # ps \<Rightarrow> (c # p) # ps))"

text \<open>\<^verbatim>\<open>s.startswith(t)\<close> and \<^verbatim>\<open>s.endswith(t)\<close>.\<close>

definition startswith :: "string \<Rightarrow> string \<Rightarrow> bool" where
  "startswith s t = (take (length t) s = t)"

definition endswith :: "string \<Rightarrow> string \<Rightarrow> bool" where
  "endswith s t = (length t \<le> length s \<and> drop (length s - length t) s = t)"

text \<open>
  \<^verbatim>\<open>int(s)\<close> on a string, base ten. The text is: white space, an optional sign, decimal
  digits in which single underscores may separate two digits, white space. The white
  space \<^verbatim>\<open>int\<close> accepts among the code points below 256 is tab, line feed, vertical
  tab, form feed, carriage return, space, and the two characters 0x85 and 0xA0; the
  only decimal digits there are \<^verbatim>\<open>0\<close> to \<^verbatim>\<open>9\<close>. Everything else raises \<^verbatim>\<open>ValueError\<close>.
\<close>

definition is_space :: "char \<Rightarrow> bool" where
  "is_space c = ((of_char c :: nat) \<in> {9, 10, 11, 12, 13, 32, 133, 160})"

definition is_digit :: "char \<Rightarrow> bool" where
  "is_digit c = (48 \<le> (of_char c :: nat) \<and> (of_char c :: nat) \<le> 57)"

definition digit_val :: "char \<Rightarrow> nat" where
  "digit_val c = of_char c - 48"

definition is_digit_or_us :: "char \<Rightarrow> bool" where
  "is_digit_or_us c = (is_digit c \<or> c = CHR ''_'')"

fun double_us :: "string \<Rightarrow> bool" where
  "double_us (a # b # cs) = ((a = CHR ''_'' \<and> b = CHR ''_'') \<or> double_us (b # cs))"
| "double_us _ = False"

definition dec_value :: "string \<Rightarrow> nat" where
  "dec_value ds = foldl (\<lambda>acc c. 10 * acc + digit_val c) 0 ds"

definition py_int :: "string \<Rightarrow> error + int" where
  "py_int s =
     (let s1 = dropWhile is_space s;
          neg = (s1 \<noteq> [] \<and> hd s1 = CHR ''-'');
          s2 = (if s1 \<noteq> [] \<and> (hd s1 = CHR ''-'' \<or> hd s1 = CHR ''+'') then tl s1 else s1);
          body = takeWhile is_digit_or_us s2;
          rest = dropWhile is_digit_or_us s2
      in if body \<noteq> [] \<and> hd body \<noteq> CHR ''_'' \<and> last body \<noteq> CHR ''_''
            \<and> \<not> double_us body \<and> list_all is_space rest
         then Inr ((if neg then - 1 else 1) * int (dec_value (filter is_digit body)))
         else Inl ValueError)"

text \<open>
  \<^verbatim>\<open>str(n)\<close> for a natural number, and the format specifications \<^verbatim>\<open>04d\<close> and \<^verbatim>\<open>02d\<close>:
  zeros are filled in between the sign and the digits up to the width, and a wider
  number is not cut.
\<close>

fun dec_digits :: "nat \<Rightarrow> string" where
  "dec_digits n =
     (if n < 10 then [char_of (48 + n)]
      else dec_digits (n div 10) @ [char_of (48 + n mod 10)])"

declare dec_digits.simps [simp del]

definition fmt_0d :: "nat \<Rightarrow> int \<Rightarrow> string" where
  "fmt_0d w n =
     (let ds = dec_digits (nat \<bar>n\<bar>)
      in if n < 0 then CHR ''-'' # replicate (w - 1 - length ds) CHR ''0'' @ ds
         else replicate (w - length ds) CHR ''0'' @ ds)"

text \<open>
  \<^verbatim>\<open>math.ceil(math.log(x, 10))\<close>. The logarithm raises \<^verbatim>\<open>ValueError\<close> unless \<open>x\<close> is
  positive. Its value is a floating-point number in the program; the model takes the
  ceiling of the real logarithm, which \<open>ceil_log10\<close> computes on integers: the least
  \<open>k\<close> with \<open>x \<le> 10 ^ k\<close>.
\<close>

fun ceil_log10 :: "nat \<Rightarrow> nat" where
  "ceil_log10 n = (if n \<le> 1 then 0 else Suc (ceil_log10 ((n + 9) div 10)))"

declare ceil_log10.simps [simp del]

definition math_ceil_log10 :: "int \<Rightarrow> error + int" where
  "math_ceil_log10 x = (if x \<le> 0 then Inl ValueError else Inr (int (ceil_log10 (nat x))))"

subsection \<open>Configuration\<close>

definition colors :: "string list" where
  "colors = [''#fc990f'', ''#cec323'', ''#53adfc'', ''#b53834'',
             ''#4fce46'', ''#6374e2'', ''#55d1ac'', ''#ff0090'']"

definition ROWS :: int where "ROWS = 16"
definition COLS :: int where "COLS = 5"
definition CELLS :: int where "CELLS = ROWS * COLS"

subsection \<open>\<^verbatim>\<open>parse_cfg\<close>\<close>

text \<open>
  The result is the lines printed and the triple \<open>(year, first, last)\<close>, or the
  exception that \<^verbatim>\<open>int\<close> raised. The fields are converted in the order year, first,
  last.
\<close>

definition parse_cfg :: "string \<Rightarrow> error + (string list \<times> (int \<times> int \<times> int))" where
  "parse_cfg cfg =
     (let parts = py_split CHR '':'' cfg
      in if length parts \<noteq> 3 then Inr ([''Error: invalid config: '' @ cfg], (0, 0, 0))
         else
           (case (if parts ! 0 \<noteq> [] then py_int (parts ! 0) else Inr 0) of
              Inl e \<Rightarrow> Inl e
            | Inr year \<Rightarrow>
               (case (if parts ! 1 \<noteq> [] then py_int (parts ! 1) else Inr 1) of
                  Inl e \<Rightarrow> Inl e
                | Inr first \<Rightarrow>
                   (case (if parts ! 2 = [] then Inr (first + ROWS * COLS - 1)
                          else if startswith (parts ! 2) ''x''
                          then (case py_int (drop 1 (parts ! 2)) of
                                  Inl e \<Rightarrow> Inl e
                                | Inr n \<Rightarrow> Inr (first + ROWS * n - 1))
                          else py_int (parts ! 2)) of
                      Inl e \<Rightarrow> Inl e
                    | Inr last' \<Rightarrow> Inr ([], (year, first, last'))))))"

subsection \<open>\<^verbatim>\<open>values\<close>\<close>

text \<open>
  The result is \<open>(id4, asn, zero4, fg_color)\<close>. Multiplying a string by a negative
  number gives the empty string, as \<open>replicate\<close> of \<open>nat\<close> of a negative number does.
  The remainder \<^verbatim>\<open>year % len(colors)\<close> is never negative, so the index is in range.
\<close>

definition "values" :: "int \<Rightarrow> int \<Rightarrow> error + (string \<times> string \<times> string \<times> string)" where
  "values year sn =
     (let id4 = fmt_0d 4 sn;
          asn = ''ASN'' @ fmt_0d 2 year @ id4
      in case math_ceil_log10 (sn + 1) of
           Inl e \<Rightarrow> Inl e
         | Inr k \<Rightarrow>
            (let zero4 = replicate (nat (4 - k)) CHR ''0'';
                 fg_color = colors ! nat (year mod int (length colors))
             in Inr (id4, asn, zero4, fg_color)))"

subsection \<open>\<^verbatim>\<open>main\<close>: expanding the specifications, naming the output\<close>

text \<open>
  \<open>expand\<close> is the list comprehension \<^verbatim>\<open>[[year, x] for x in range(first, last+1)]\<close>.
  \<open>main_loop\<close> is the loop over \<^verbatim>\<open>args.cfg\<close>; its state is the lines printed so far and
  \<^verbatim>\<open>data\<close>. An exception of \<^verbatim>\<open>parse_cfg\<close> is not caught and ends the run.
\<close>

fun expand :: "int \<times> int \<times> int \<Rightarrow> (int \<times> int) list" where
  "expand (year, first, last') = map (\<lambda>x. (year, x)) [first..last']"

fun main_loop :: "string list \<Rightarrow> string list \<times> (int \<times> int) list
    \<Rightarrow> error + (string list \<times> (int \<times> int) list)" where
  "main_loop [] st = Inr st"
| "main_loop (cfg # cfgs) (out, data) =
     (case parse_cfg cfg of
        Inl e \<Rightarrow> Inl e
      | Inr (printed, r) \<Rightarrow> main_loop cfgs (out @ printed, data @ expand r))"

text \<open>
  \<open>args_output\<close> is the value of \<^verbatim>\<open>--output\<close>, with its default when the option is not
  given; \<open>output_pdf\<close> is the name the file is opened under.
\<close>

definition args_output :: "string option \<Rightarrow> string" where
  "args_output opt = (case opt of None \<Rightarrow> ''output.pdf'' | Some name \<Rightarrow> name)"

definition output_pdf :: "string \<Rightarrow> string" where
  "output_pdf output = (if \<not> endswith output ''.pdf'' then output @ ''.pdf'' else output)"

section \<open>Properties\<close>

subsection \<open>Auxiliary facts\<close>

lemma py_split_not_Nil: "py_split d s \<noteq> []"
  by (induction s) (auto split: list.splits)

lemma py_split_no_sep: "d \<notin> set a \<Longrightarrow> py_split d a = [a]"
  by (induction a) auto

lemma py_split_sep: "d \<notin> set a \<Longrightarrow> py_split d (a @ d # r) = a # py_split d r"
  by (induction a) auto

lemma py_split_three:
  assumes "d \<notin> set a" "d \<notin> set b" "d \<notin> set c"
  shows "py_split d (a @ d # b @ d # c) = [a, b, c]"
  using assms by (simp add: py_split_sep py_split_no_sep)

lemma ceil_log10_bounds:
  "2 \<le> n \<Longrightarrow> 0 < ceil_log10 n \<and> 10 ^ (ceil_log10 n - 1) < n \<and> n \<le> 10 ^ ceil_log10 n"
proof (induction n rule: ceil_log10.induct)
  case (1 n)
  let ?m = "(n + 9) div 10"
  have unfold: "ceil_log10 n = Suc (ceil_log10 ?m)"
    using "1.prems" by (subst ceil_log10.simps) simp
  show ?case
  proof (cases "?m \<le> 1")
    case True
    then have "ceil_log10 ?m = 0" by (subst ceil_log10.simps) simp
    moreover from True have "n \<le> 10" by linarith
    ultimately show ?thesis using unfold "1.prems" by simp
  next
    case False
    then have m2: "2 \<le> ?m" by simp
    have IH: "0 < ceil_log10 ?m \<and> 10 ^ (ceil_log10 ?m - 1) < ?m \<and> ?m \<le> 10 ^ ceil_log10 ?m"
      using "1.IH" "1.prems" m2 by simp
    define k where "k = ceil_log10 ?m"
    from IH have kpos: "0 < k" and lo: "10 ^ (k - 1) < ?m" and hi: "?m \<le> 10 ^ k"
      by (simp_all add: k_def)
    from kpos have pw: "(10::nat) ^ k = 10 * 10 ^ (k - 1)"
      by (cases k) simp_all
    from lo have "10 * 10 ^ (k - 1) < n" by linarith
    moreover from hi have "n \<le> 10 * 10 ^ k" by linarith
    ultimately show ?thesis using unfold pw by (simp add: k_def)
  qed
qed

lemma ceil_log10_real: "0 < n \<Longrightarrow> \<lceil>log 10 (real n)\<rceil> = int (ceil_log10 n)"
proof (cases "n = 1")
  case True
  then show ?thesis by (simp add: ceil_log10.simps)
next
  case False
  assume "0 < n"
  with False have n2: "2 \<le> n" by simp
  from ceil_log10_bounds [OF n2]
  have kpos: "0 < ceil_log10 n" and lo: "10 ^ (ceil_log10 n - 1) < n"
    and hi: "n \<le> 10 ^ (ceil_log10 n - 1 + 1)" by simp_all
  have "\<lceil>log (real 10) (real n)\<rceil> = int (ceil_log10 n - 1) + 1"
    by (rule ceiling_log_nat_eq_if [OF lo hi]) simp
  with kpos show ?thesis by simp
qed

lemma endswith_suffix: "endswith s t \<longleftrightarrow> suffix t s"
proof
  assume "endswith s t"
  then have "s = take (length s - length t) s @ t"
    by (metis append_take_drop_id endswith_def)
  then show "suffix t s" by (metis suffixI)
next
  assume "suffix t s"
  then obtain zs where "s = zs @ t" by (auto simp: suffix_def)
  then show "endswith s t" by (simp add: endswith_def)
qed

lemma parse_cfg_three:
  assumes "py_split CHR '':'' cfg = [a, b, c]"
  shows "parse_cfg cfg =
     (case (if a \<noteq> [] then py_int a else Inr 0) of
        Inl e \<Rightarrow> Inl e
      | Inr year \<Rightarrow>
         (case (if b \<noteq> [] then py_int b else Inr 1) of
            Inl e \<Rightarrow> Inl e
          | Inr first \<Rightarrow>
             (case (if c = [] then Inr (first + ROWS * COLS - 1)
                    else if startswith c ''x''
                    then (case py_int (drop 1 c) of
                            Inl e \<Rightarrow> Inl e
                          | Inr n \<Rightarrow> Inr (first + ROWS * n - 1))
                    else py_int c) of
                Inl e \<Rightarrow> Inl e
              | Inr last' \<Rightarrow> Inr ([], (year, first, last')))))"
proof -
  have nth: "[a, b, c] ! 0 = a" "[a, b, c] ! 1 = b" "[a, b, c] ! 2 = c"
    by simp_all
  show ?thesis
    unfolding parse_cfg_def Let_def assms nth by simp
qed

lemma main_loop_Inl:
  "parse_cfg cfg = Inl e \<Longrightarrow> cfg \<in> set cfgs \<Longrightarrow> main_loop cfgs st = Inl ValueError"
proof (induction cfgs arbitrary: st)
  case Nil
  then show ?case by simp
next
  case (Cons c cs)
  obtain out data where st: "st = (out, data)" by (cases st)
  show ?case
  proof (cases "parse_cfg c")
    case (Inl e')
    then show ?thesis by (cases e') (simp add: st)
  next
    case (Inr r)
    with Cons.prems have "cfg \<in> set cs" by auto
    with Cons.IH Cons.prems(1) Inr show ?thesis
      by (cases r) (simp add: st)
  qed
qed

lemma values_nonneg:
  assumes "0 \<le> sn"
  shows "values year sn =
     Inr (fmt_0d 4 sn, ''ASN'' @ fmt_0d 2 year @ fmt_0d 4 sn,
          replicate (nat (4 - int (ceil_log10 (nat (sn + 1))))) CHR ''0'',
          colors ! nat (year mod 8))"
proof -
  have "math_ceil_log10 (sn + 1) = Inr (int (ceil_log10 (nat (sn + 1))))"
    using assms by (simp add: math_ceil_log10_def)
  moreover have "length colors = 8" by (simp add: colors_def)
  ultimately show ?thesis by (simp add: values_def Let_def)
qed

lemma error_ValueError: "(e :: error) = ValueError"
  by (cases e) simp

subsection \<open>Malformed specifications\<close>

text \<open>
  C1 does not hold of the code at \<^verbatim>\<open>a:b\<close>, a specification of two fields. The parser
  prints the diagnostic and returns \<open>(0, 0, 0)\<close> in place of a range, and the loop goes
  on to the next specification, as C1 says. But the loop expands every triple with
  the inclusive \<^verbatim>\<open>range(first, last+1)\<close>, which for \<open>(0, 0, 0)\<close> is the one serial
  \<open>0\<close>: the malformed specification puts the label \<open>(0, 0)\<close> into the data, where
  C1 has it contribute none.
\<close>

theorem malformed_spec_stray_label:
  "length (py_split CHR '':'' ''a:b'') \<noteq> 3
   \<and> parse_cfg ''a:b'' = Inr ([''Error: invalid config: a:b''], (0, 0, 0))
   \<and> expand (0, 0, 0) = [(0, 0)]
   \<and> main_loop [''a:b''] ([], []) = Inr ([''Error: invalid config: a:b''], [(0, 0)])
   \<and> main_loop [''a:b'', ''3:1:2''] ([], [])
       = Inr ([''Error: invalid config: a:b''], [(0, 0), (3, 1), (3, 2)])"
  by code_simp

subsection \<open>Resolving the last field\<close>

text \<open>
  C2: for every input \<^verbatim>\<open>year:first:xN\<close>, where the year and first fields are empty or
  integer text and \<open>N\<close> is the integer after the prefix \<^verbatim>\<open>x\<close>, the parser resolves
  \<open>last = first + ROWS * N - 1\<close> with 16 rows per sheet; \<^verbatim>\<open>5:10:x2\<close> expands to the 32
  items \<open>(5, 10)\<close> to \<open>(5, 41)\<close>.
\<close>

theorem block_count_last:
  assumes "CHR '':'' \<notin> set y" and "CHR '':'' \<notin> set f" and "CHR '':'' \<notin> set n"
    and "(if y \<noteq> [] then py_int y else Inr 0) = Inr year"
    and "(if f \<noteq> [] then py_int f else Inr 1) = Inr first"
    and "py_int n = Inr N"
  shows "parse_cfg (y @ '':'' @ f @ '':x'' @ n) = Inr ([], (year, first, first + ROWS * N - 1))
       \<and> ROWS = 16
       \<and> main_loop [''5:10:x2''] ([], []) = Inr ([], map (\<lambda>x. (5, x)) [10..41])
       \<and> length (map (\<lambda>x. (5 :: int, x)) [10..41]) = 32"
proof -
  have split: "py_split CHR '':'' (y @ '':'' @ f @ '':x'' @ n) = [y, f, CHR ''x'' # n]"
    using py_split_three [of "CHR '':''" y f "CHR ''x'' # n"] assms(1-3) by simp
  have "parse_cfg (y @ '':'' @ f @ '':x'' @ n) = Inr ([], (year, first, first + ROWS * N - 1))"
    using assms(4-6) by (subst parse_cfg_three [OF split]) (simp add: startswith_def)
  moreover have "parse_cfg ''5:10:x2'' = Inr ([], (5, 10, 41))"
    by code_simp
  then have "main_loop [''5:10:x2''] ([], []) = Inr ([], map (\<lambda>x. (5, x)) [10..41])"
    by simp
  ultimately show ?thesis by (simp add: ROWS_def)
qed

text \<open>
  C2 at \<^verbatim>\<open>7:3:x4\<close>.
\<close>

theorem block_count_last_witness:
  "CHR '':'' \<notin> set ''7'' \<and> CHR '':'' \<notin> set ''3'' \<and> CHR '':'' \<notin> set ''4''
   \<and> py_int ''7'' = Inr 7 \<and> py_int ''3'' = Inr 3 \<and> py_int ''4'' = Inr 4
   \<and> parse_cfg ''7:3:x4'' = Inr ([], (7, 3, 3 + 16 * 4 - 1))"
proof -
  have c: "CHR '':'' \<notin> set ''7''" "CHR '':'' \<notin> set ''3''" "CHR '':'' \<notin> set ''4''"
    by simp_all
  have y: "py_int ''7'' = Inr 7" and f: "py_int ''3'' = Inr 3" and n: "py_int ''4'' = Inr 4"
    by code_simp+
  have y': "(if ''7'' \<noteq> [] then py_int ''7'' else Inr 0) = Inr 7" using y by simp
  have f': "(if ''3'' \<noteq> [] then py_int ''3'' else Inr 1) = Inr 3" using f by simp
  from block_count_last [OF c y' f' n] c y f n
  show ?thesis by (simp add: ROWS_def)
qed

text \<open>
  C3: for every input whose year and first fields are empty or integer text and whose
  last field is empty, the parser resolves \<open>last = first + CELLS - 1\<close>, where \<open>CELLS\<close>
  is 16 rows times 5 columns; \<^verbatim>\<open>0:1:\<close> expands to the items \<open>(0, 1)\<close> to \<open>(0, 80)\<close>.
\<close>

theorem empty_last_full_page:
  assumes "CHR '':'' \<notin> set y" and "CHR '':'' \<notin> set f"
    and "(if y \<noteq> [] then py_int y else Inr 0) = Inr year"
    and "(if f \<noteq> [] then py_int f else Inr 1) = Inr first"
  shows "parse_cfg (y @ '':'' @ f @ '':'') = Inr ([], (year, first, first + CELLS - 1))
       \<and> CELLS = 16 * 5
       \<and> main_loop [''0:1:''] ([], []) = Inr ([], map (\<lambda>x. (0, x)) [1..80])"
proof -
  have split: "py_split CHR '':'' (y @ '':'' @ f @ '':'') = [y, f, []]"
    using py_split_three [of "CHR '':''" y f "[]"] assms(1,2) by simp
  have "parse_cfg (y @ '':'' @ f @ '':'') = Inr ([], (year, first, first + CELLS - 1))"
    using assms(3,4) by (subst parse_cfg_three [OF split]) (simp add: CELLS_def)
  moreover have "parse_cfg ''0:1:'' = Inr ([], (0, 1, 80))"
    by code_simp
  then have "main_loop [''0:1:''] ([], []) = Inr ([], map (\<lambda>x. (0, x)) [1..80])"
    by simp
  ultimately show ?thesis by (simp add: CELLS_def ROWS_def COLS_def)
qed

text \<open>
  C3 at \<^verbatim>\<open>23::\<close>, where the first field takes its default.
\<close>

theorem empty_last_full_page_witness:
  "CHR '':'' \<notin> set ''23'' \<and> CHR '':'' \<notin> set []
   \<and> py_int ''23'' = Inr 23
   \<and> parse_cfg ''23::'' = Inr ([], (23, 1, 80))"
proof -
  have c: "CHR '':'' \<notin> set ''23''" "CHR '':'' \<notin> set []"
    by simp_all
  have y: "py_int ''23'' = Inr 23"
    by code_simp
  have y': "(if ''23'' \<noteq> [] then py_int ''23'' else Inr 0) = Inr 23" using y by simp
  have f': "(if ([] :: string) \<noteq> [] then py_int [] else Inr 1) = Inr 1" by simp
  from empty_last_full_page [OF c y' f'] c y
  show ?thesis by (simp add: CELLS_def ROWS_def COLS_def)
qed

text \<open>
  C4, as stated, fails: \<^verbatim>\<open>x2\<close> does not stand for two pages of 80 labels. The input
  \<^verbatim>\<open>5:10:x2\<close> expands to twice \<open>ROWS\<close> items, that is 32, not twice \<open>CELLS\<close>.
\<close>

theorem block_count_pages_counterexample:
  "parse_cfg ''5:10:x2'' = Inr ([], (5, 10, 41))
   \<and> int (length (expand (5, 10, 41))) = 2 * ROWS
   \<and> int (length (expand (5, 10, 41))) \<noteq> 2 * CELLS"
  by code_simp

text \<open>
  C4, amended: the shorthand \<^verbatim>\<open>xN\<close> means \<open>N\<close> columns of \<open>ROWS\<close> labels; for every input
  \<^verbatim>\<open>year:first:xN\<close> the expansion has \<open>N * 16\<close> items (none when \<open>N\<close> is negative).
\<close>

theorem block_count_items:
  assumes "CHR '':'' \<notin> set y" and "CHR '':'' \<notin> set f" and "CHR '':'' \<notin> set n"
    and "(if y \<noteq> [] then py_int y else Inr 0) = Inr year"
    and "(if f \<noteq> [] then py_int f else Inr 1) = Inr first"
    and "py_int n = Inr N"
  shows "\<exists>r. parse_cfg (y @ '':'' @ f @ '':x'' @ n) = Inr ([], r)
           \<and> length (expand r) = nat (N * ROWS) \<and> ROWS = 16"
proof -
  have split: "py_split CHR '':'' (y @ '':'' @ f @ '':x'' @ n) = [y, f, CHR ''x'' # n]"
    using py_split_three [of "CHR '':''" y f "CHR ''x'' # n"] assms(1-3) by simp
  have "parse_cfg (y @ '':'' @ f @ '':x'' @ n) = Inr ([], (year, first, first + ROWS * N - 1))"
    using assms(4-6) by (subst parse_cfg_three [OF split]) (simp add: startswith_def)
  moreover have "length (expand (year, first, first + ROWS * N - 1)) = nat (N * ROWS)"
    by (simp add: mult.commute)
  ultimately show ?thesis by (simp add: ROWS_def)
qed

text \<open>
  C4, amended, at \<^verbatim>\<open>5:10:x2\<close>.
\<close>

theorem block_count_items_witness:
  "CHR '':'' \<notin> set ''5'' \<and> CHR '':'' \<notin> set ''10'' \<and> CHR '':'' \<notin> set ''2''
   \<and> py_int ''5'' = Inr 5 \<and> py_int ''10'' = Inr 10 \<and> py_int ''2'' = Inr 2
   \<and> (\<exists>r. parse_cfg ''5:10:x2'' = Inr ([], r) \<and> length (expand r) = 32)"
proof -
  have c: "CHR '':'' \<notin> set ''5''" "CHR '':'' \<notin> set ''10''" "CHR '':'' \<notin> set ''2''"
    by simp_all
  have y: "py_int ''5'' = Inr 5" and f: "py_int ''10'' = Inr 10" and n: "py_int ''2'' = Inr 2"
    by code_simp+
  have y': "(if ''5'' \<noteq> [] then py_int ''5'' else Inr 0) = Inr 5" using y by simp
  have f': "(if ''10'' \<noteq> [] then py_int ''10'' else Inr 1) = Inr 10" using f by simp
  from block_count_items [OF c y' f' n] c y f n
  show ?thesis by (simp add: ROWS_def)
qed

subsection \<open>Label values\<close>

text \<open>
  C5: for every serial from 0 on, the third component of \<^verbatim>\<open>values\<close> is a string of exactly
  \<open>max 0 (4 - \<lceil>log 10 (serial + 1)\<rceil>)\<close> zero characters, the logarithm being the real one
  and the shift by one as in the code: serial 9 gives three zeros, serial 10 gives two.
\<close>

theorem zeroFill_formula:
  "(0 \<le> sn \<longrightarrow>
      values year sn =
        Inr (fmt_0d 4 sn, ''ASN'' @ fmt_0d 2 year @ fmt_0d 4 sn,
             replicate (nat (max 0 (4 - \<lceil>log 10 (real_of_int (sn + 1))\<rceil>))) CHR ''0'',
             colors ! nat (year mod 8)))
   \<and> (\<exists>id4 asn fg_color. values year 9 = Inr (id4, asn, ''000'', fg_color))
   \<and> (\<exists>id4 asn fg_color. values year 10 = Inr (id4, asn, ''00'', fg_color))"
proof (intro conjI impI)
  assume nonneg: "0 \<le> sn"
  then have "real_of_int (sn + 1) = real (nat (sn + 1))" by simp
  moreover from nonneg have "0 < nat (sn + 1)" by simp
  ultimately have "\<lceil>log 10 (real_of_int (sn + 1))\<rceil> = int (ceil_log10 (nat (sn + 1)))"
    using ceil_log10_real [of "nat (sn + 1)"] by simp
  then have "nat (max 0 (4 - \<lceil>log 10 (real_of_int (sn + 1))\<rceil>))
      = nat (4 - int (ceil_log10 (nat (sn + 1))))"
    by simp
  with values_nonneg [OF nonneg, of year]
  show "values year sn =
        Inr (fmt_0d 4 sn, ''ASN'' @ fmt_0d 2 year @ fmt_0d 4 sn,
             replicate (nat (max 0 (4 - \<lceil>log 10 (real_of_int (sn + 1))\<rceil>))) CHR ''0'',
             colors ! nat (year mod 8))"
    by simp
next
  have "ceil_log10 10 = 1" by code_simp
  then have "replicate (nat (4 - int (ceil_log10 (nat (9 + 1))))) CHR ''0'' = ''000''"
    by (simp add: numeral_3_eq_3)
  with values_nonneg [of 9 year]
  show "\<exists>id4 asn fg_color. values year 9 = Inr (id4, asn, ''000'', fg_color)"
    by simp
next
  have "ceil_log10 11 = 2" by code_simp
  then have "replicate (nat (4 - int (ceil_log10 (nat (10 + 1))))) CHR ''0'' = ''00''"
    by (simp add: numeral_2_eq_2)
  with values_nonneg [of 10 year]
  show "\<exists>id4 asn fg_color. values year 10 = Inr (id4, asn, ''00'', fg_color)"
    by simp
qed

text \<open>
  C5 at serial 999, where \<open>serial + 1\<close> is a power of ten.
\<close>

theorem zeroFill_formula_witness:
  "(0::int) \<le> 999
   \<and> values 23 999 = Inr (''0999'', ''ASN230999'', ''0'', ''#ff0090'')
   \<and> replicate (nat (max 0 (4 - \<lceil>log 10 (real_of_int (999 + 1))\<rceil>))) CHR ''0'' = ''0''"
proof -
  have h: "(0::int) \<le> 999" by simp
  have v: "values 23 999 = Inr (''0999'', ''ASN230999'', ''0'', ''#ff0090'')"
    by code_simp
  from zeroFill_formula [of 999 23] h
  have "values 23 999 =
        Inr (fmt_0d 4 999, ''ASN'' @ fmt_0d 2 23 @ fmt_0d 4 999,
             replicate (nat (max 0 (4 - \<lceil>log 10 (real_of_int (999 + 1))\<rceil>))) CHR ''0'',
             colors ! nat (23 mod 8))"
    by blast
  with v have "replicate (nat (max 0 (4 - \<lceil>log 10 (real_of_int (999 + 1))\<rceil>))) CHR ''0'' = ''0''"
    by (simp only: sum.inject prod.inject)
  with h v show ?thesis by (simp only: simp_thms)
qed

text \<open>
  C6: \<^verbatim>\<open>values(1, 7)\<close> returns the padded id \<^verbatim>\<open>0007\<close>, the zero filler \<^verbatim>\<open>000\<close>, the code
  \<^verbatim>\<open>ASN010007\<close>, which is the prefix \<^verbatim>\<open>ASN\<close>, the year in two digits and the padded id,
  and the colour at index 1 of the palette of 8 entries.
\<close>

theorem values_example:
  "values 1 7 = Inr (''0007'', ''ASN010007'', ''000'', colors ! 1)
   \<and> ''ASN010007'' = ''ASN'' @ fmt_0d 2 1 @ ''0007''
   \<and> fmt_0d 2 1 = ''01''
   \<and> length colors = 8"
  by code_simp

text \<open>
  C10: for every year from 0 on, \<^verbatim>\<open>values(year, 0)\<close> returns, with the padded id
  \<^verbatim>\<open>0000\<close> and a filler of four zeros; for every positive serial the filler has fewer
  than four zeros.
\<close>

theorem values_serial_zero:
  "(0 \<le> year \<longrightarrow>
      values year 0 = Inr (''0000'', ''ASN'' @ fmt_0d 2 year @ ''0000'', ''0000'',
                          colors ! nat (year mod 8)))
   \<and> (0 < sn \<longrightarrow>
        (\<exists>id4 asn zero4 fg_color.
            values year sn = Inr (id4, asn, zero4, fg_color) \<and> length zero4 < 4))"
proof (intro conjI impI)
  have "fmt_0d 4 0 = ''0000''" by code_simp
  moreover have "ceil_log10 1 = 0" by code_simp
  then have "replicate (nat (4 - int (ceil_log10 (nat (0 + 1))))) CHR ''0'' = ''0000''"
    by (simp add: numeral_eq_Suc)
  ultimately
  show "values year 0 = Inr (''0000'', ''ASN'' @ fmt_0d 2 year @ ''0000'', ''0000'',
                          colors ! nat (year mod 8))"
    using values_nonneg [of 0 year] by simp
next
  assume pos: "0 < sn"
  then have "2 \<le> nat (sn + 1)" by simp
  from ceil_log10_bounds [OF this] have "0 < ceil_log10 (nat (sn + 1))" by simp
  then have "length (replicate (nat (4 - int (ceil_log10 (nat (sn + 1))))) CHR ''0'') < 4"
    by simp
  with values_nonneg [of sn year] pos
  show "\<exists>id4 asn zero4 fg_color.
            values year sn = Inr (id4, asn, zero4, fg_color) \<and> length zero4 < 4"
    by simp
qed

text \<open>
  C10 at year 5, with serial 0 and serial 1.
\<close>

theorem values_serial_zero_witness:
  "(0::int) \<le> 5 \<and> values 5 0 = Inr (''0000'', ''ASN050000'', ''0000'', ''#6374e2'')
   \<and> (0::int) < 1
   \<and> (\<exists>id4 asn zero4 fg_color.
          values 5 1 = Inr (id4, asn, zero4, fg_color) \<and> length zero4 < 4)
   \<and> values 5 1 = Inr (''0001'', ''ASN050001'', ''000'', ''#6374e2'')"
proof -
  have v0: "values 5 0 = Inr (''0000'', ''ASN050000'', ''0000'', ''#6374e2'')"
    and v1: "values 5 1 = Inr (''0001'', ''ASN050001'', ''000'', ''#6374e2'')"
    by code_simp+
  have "\<exists>id4 asn zero4 fg_color.
          values 5 1 = Inr (id4, asn, zero4, fg_color) \<and> length zero4 < 4"
    using values_serial_zero [of 5 1] by simp
  with v0 v1 show ?thesis by simp
qed

subsection \<open>Inverted ranges and text that is no integer\<close>

text \<open>
  C7: whenever the parser resolves a specification to a range with \<open>last < first\<close>, it
  does so without a diagnostic and without an exception, the expansion of the range is
  empty, and the loop goes on with the labels collected so far: the order of \<open>first\<close>
  and \<open>last\<close> is not checked anywhere.
\<close>

theorem inverted_range_empty:
  assumes "parse_cfg cfg = Inr (printed, (year, first, last'))" and "last' < first"
  shows "printed = [] \<and> expand (year, first, last') = []
       \<and> main_loop (cfg # cfgs) (out, data) = main_loop cfgs (out, data)"
proof -
  have "printed = []"
  proof (cases "length (py_split CHR '':'' cfg) \<noteq> 3")
    case True
    then have "parse_cfg cfg = Inr ([''Error: invalid config: '' @ cfg], (0, 0, 0))"
      by (simp add: parse_cfg_def)
    with assms show ?thesis by simp
  next
    case False
    then obtain a b c where "py_split CHR '':'' cfg = [a, b, c]"
      by (auto simp: length_Suc_conv numeral_3_eq_3)
    from parse_cfg_three [OF this] assms(1) show ?thesis
      by (auto split: sum.splits)
  qed
  moreover have "expand (year, first, last') = []"
    using assms(2) by simp
  ultimately show ?thesis using assms(1) by simp
qed

text \<open>
  C7 at \<^verbatim>\<open>1:5:3\<close>, which the parser resolves to \<open>(1, 5, 3)\<close>, followed by \<^verbatim>\<open>2:1:2\<close>.
\<close>

theorem inverted_range_empty_witness:
  "parse_cfg ''1:5:3'' = Inr ([], (1, 5, 3)) \<and> (3::int) < 5
   \<and> expand (1, 5, 3) = []
   \<and> main_loop [''1:5:3'', ''2:1:2''] ([], []) = Inr ([], [(2, 1), (2, 2)])"
proof -
  have p: "parse_cfg ''1:5:3'' = Inr ([], (1, 5, 3))" by code_simp
  have lt: "(3::int) < 5" by simp
  have r: "main_loop [''2:1:2''] ([], []) = Inr ([], [(2, 1), (2, 2)])" by code_simp
  from inverted_range_empty [OF p lt, of "[''2:1:2'']" "[]" "[]"] p lt r
  show ?thesis by (simp del: main_loop.simps)
qed

text \<open>
  C8: when a specification has three fields and \<^verbatim>\<open>int\<close> rejects the year, the first, an
  explicit last, or the text after the prefix \<^verbatim>\<open>x\<close>, each when not empty, the parser raises
  \<^verbatim>\<open>ValueError\<close> instead of returning a substitute, and a run over any list of
  specifications that contains this one ends with that exception.
\<close>

theorem bad_integer_terminates:
  assumes "py_split CHR '':'' cfg = [a, b, c]"
    and "(a \<noteq> [] \<and> py_int a = Inl ValueError)
       \<or> (b \<noteq> [] \<and> py_int b = Inl ValueError)
       \<or> (c \<noteq> [] \<and> \<not> startswith c ''x'' \<and> py_int c = Inl ValueError)
       \<or> (startswith c ''x'' \<and> py_int (drop 1 c) = Inl ValueError)"
    and "cfg \<in> set cfgs"
  shows "parse_cfg cfg = Inl ValueError \<and> main_loop cfgs st = Inl ValueError"
proof -
  have x: "c \<noteq> []" if "startswith c ''x''"
    using that by (auto simp: startswith_def)
  have "parse_cfg cfg = Inl ValueError"
    using assms(2) x
    by (subst parse_cfg_three [OF assms(1)]) (auto split: sum.splits simp: error_ValueError)
  with main_loop_Inl [OF _ assms(3)] show ?thesis by simp
qed

text \<open>
  C8 at \<^verbatim>\<open>1:5:x\<close>, where nothing follows the prefix, between two good specifications.
\<close>

theorem bad_integer_terminates_witness:
  "py_split CHR '':'' ''1:5:x'' = [''1'', ''5'', ''x'']
   \<and> startswith ''x'' ''x'' \<and> py_int (drop 1 ''x'') = Inl ValueError
   \<and> ''1:5:x'' \<in> set [''2:1:2'', ''1:5:x'', ''3:1:1'']
   \<and> parse_cfg ''1:5:x'' = Inl ValueError
   \<and> main_loop [''2:1:2'', ''1:5:x'', ''3:1:1''] ([], []) = Inl ValueError"
proof -
  have s: "py_split CHR '':'' ''1:5:x'' = [''1'', ''5'', ''x'']" by simp
  have sw: "startswith ''x'' ''x''" by (simp add: startswith_def)
  have bad: "py_int (drop 1 ''x'') = Inl ValueError" by code_simp
  have d: "(''1'' \<noteq> [] \<and> py_int ''1'' = Inl ValueError)
       \<or> (''5'' \<noteq> [] \<and> py_int ''5'' = Inl ValueError)
       \<or> (''x'' \<noteq> [] \<and> \<not> startswith ''x'' ''x'' \<and> py_int ''x'' = Inl ValueError)
       \<or> (startswith ''x'' ''x'' \<and> py_int (drop 1 ''x'') = Inl ValueError)"
    using sw bad by blast
  have m: "''1:5:x'' \<in> set [''2:1:2'', ''1:5:x'', ''3:1:1'']" by simp
  from bad_integer_terminates [OF s d m, of "([], [])"] s sw bad m
  show ?thesis by (simp only: simp_thms)
qed

subsection \<open>The name of the output file\<close>

text \<open>
  C9, as stated, fails: the default value of \<^verbatim>\<open>--output\<close> already ends in \<^verbatim>\<open>.pdf\<close>, so the
  file is opened as \<^verbatim>\<open>output.pdf\<close>, not as \<^verbatim>\<open>output.pdf.pdf\<close>.
\<close>

theorem default_output_counterexample:
  "args_output None = ''output.pdf''
   \<and> output_pdf (args_output None) = ''output.pdf''
   \<and> output_pdf (args_output None) \<noteq> ''output.pdf.pdf''"
  by code_simp

text \<open>
  C9, amended: with the default value of \<^verbatim>\<open>--output\<close> the file name is \<^verbatim>\<open>output.pdf\<close>; in
  general the extension \<^verbatim>\<open>.pdf\<close> is appended to the given name exactly when the name does
  not end in it, so the file name always ends in \<^verbatim>\<open>.pdf\<close>.
\<close>

theorem output_pdf_extension:
  "output_pdf (args_output None) = ''output.pdf''
   \<and> output_pdf name = (if suffix ''.pdf'' name then name else name @ ''.pdf'')
   \<and> suffix ''.pdf'' (output_pdf name)"
proof -
  have "output_pdf (args_output None) = ''output.pdf''"
    by code_simp
  moreover have "output_pdf name = (if suffix ''.pdf'' name then name else name @ ''.pdf'')"
    by (simp add: output_pdf_def endswith_suffix)
  moreover have "suffix ''.pdf'' (name @ ''.pdf'')"
    by (rule suffixI) simp
  ultimately show ?thesis by simp
qed

text \<open>
  C9, amended, at a name without the extension and at a name with it.
\<close>

theorem output_pdf_extension_witness:
  "output_pdf ''labels'' = ''labels.pdf'' \<and> \<not> suffix ''.pdf'' ''labels''
   \<and> output_pdf ''labels.pdf'' = ''labels.pdf'' \<and> suffix ''.pdf'' ''labels.pdf''"
proof -
  have n: "\<not> suffix ''.pdf'' ''labels''"
    using endswith_suffix [of "''labels''" "''.pdf''"] by (simp add: endswith_def)
  have y: "suffix ''.pdf'' ''labels.pdf''"
    using endswith_suffix [of "''labels.pdf''" "''.pdf''"] by (simp add: endswith_def)
  from output_pdf_extension [of "''labels''"] output_pdf_extension [of "''labels.pdf''"] n y
  show ?thesis by simp
qed

end
